theory Spec2Isabelle
  imports Main "HOL-Library.AList"
begin

section \<open>JavaScript values read from a JSON file\<close>

text \<open>
  \<^verbatim>\<open>require("<file>.json")\<close> hands the scripts the value that \<^verbatim>\<open>JSON.parse\<close> builds: a
  tree without sharing, made of \<^verbatim>\<open>null\<close>, booleans, numbers, strings, arrays and plain
  objects. An object is the list of its own properties in enumeration order. Numbers are
  never inspected by the scripts, so their type is the parameter \<open>'n\<close>.
\<close>

datatype 'n json =
    JNull
  | JBool bool
  | JNum 'n
  | JStr string
  | JArr "'n json list"
  | JObj "(string \<times> 'n json) list"

text \<open>What the scripts can throw, or receive as a rejection.\<close>

datatype js_error =
    TypeError
  | SyntaxError
  | ReferenceError
  | ModuleNotFound
  | SystemError string
  | ExternalError string

text \<open>
  Member access \<^verbatim>\<open>v.k\<close> for the property names of a schema: those the scripts read on a
  loaded value (\<^verbatim>\<open>instructions\<close>, \<^verbatim>\<open>name\<close>, \<^verbatim>\<open>args\<close>) and those of its other fields
  (\<^verbatim>\<open>types\<close>, \<^verbatim>\<open>errors\<close>, ...). Reading a property of \<^verbatim>\<open>null\<close> throws, an object gives
  its own property, and every other value (and an object without the property) gives
  \<^verbatim>\<open>undefined\<close>, here \<open>None\<close>: none of these names is inherited from a prototype or
  built into arrays or strings, as \<^verbatim>\<open>length\<close> is.
\<close>

fun get_prop :: "'n json \<Rightarrow> string \<Rightarrow> js_error + 'n json option" where
  "get_prop JNull k = Inl TypeError"
| "get_prop (JObj ps) k = Inr (map_of ps k)"
| "get_prop (JBool b) k = Inr None"
| "get_prop (JNum n) k = Inr None"
| "get_prop (JStr s) k = Inr None"
| "get_prop (JArr xs) k = Inr None"

text \<open>The own property names of a plain object, in enumeration order; of the other values,
  where they are not used, the empty list.\<close>

fun object_keys :: "'n json \<Rightarrow> string list" where
  "object_keys (JObj ps) = map fst ps"
| "object_keys (JArr xs) = []"
| "object_keys (JStr s) = []"
| "object_keys (JNum n) = []"
| "object_keys (JBool b) = []"
| "object_keys JNull = []"

text \<open>
  The scripts never assign a property; they mutate the array held by one in place. In the
  tree that is the same object with the slot of that property holding the new array.
\<close>

fun with_prop :: "'n json \<Rightarrow> string \<Rightarrow> 'n json \<Rightarrow> 'n json" where
  "with_prop (JObj ps) k v = JObj (AList.update k v ps)"
| "with_prop (JArr xs) k v = JArr xs"
| "with_prop (JStr s) k v = JStr s"
| "with_prop (JNum n) k v = JNum n"
| "with_prop (JBool b) k v = JBool b"
| "with_prop JNull k v = JNull"

text \<open>
  \<^verbatim>\<open>instruction.args.push(a)\<close>: reading \<^verbatim>\<open>args\<close> of \<^verbatim>\<open>null\<close> throws, \<^verbatim>\<open>push\<close> of
  \<^verbatim>\<open>undefined\<close> or \<^verbatim>\<open>null\<close> throws, and only an array has a callable \<^verbatim>\<open>push\<close> (no value of
  a JSON file is a function); on an array it appends at the end.
\<close>

definition args_push :: "'n json \<Rightarrow> 'n json \<Rightarrow> js_error + 'n json" where
  "args_push instruction a =
     (case get_prop instruction ''args'' of
        Inl e \<Rightarrow> Inl e
      | Inr None \<Rightarrow> Inl TypeError
      | Inr (Some (JArr xs)) \<Rightarrow> Inr (with_prop instruction ''args'' (JArr (xs @ [a])))
      | Inr (Some _) \<Rightarrow> Inl TypeError)"

section \<open>The patches of \<^verbatim>\<open>mutateIdl\<close>\<close>

text \<open>
  The eleven \<^verbatim>\<open>if\<close> statements of the loop body, in source order: the names compared with
  \<^verbatim>\<open>instruction.name\<close> and the argument pushed.
\<close>

type_synonym 'n patch = "string list \<times> 'n json"

definition patches :: "'n patch list" where
  "patches =
    [([''ReduceOrder'', ''ReduceOrderWithFreeFunds''],
        JObj [(''name'', JStr ''params''), (''type'', JObj [(''defined'', JStr ''ReduceOrderParams'')])]),
     ([''CancelMulitpleOrdersById'', ''CancelMulitpleOrdersByIdWithFreeFunds''],
        JObj [(''name'', JStr ''params''), (''type'', JObj [(''defined'', JStr ''CancelMulitpleOrdersByIdParams'')])]),
     ([''PlaceLimitOrder'', ''PlaceLimitOrderWithFreeFunds'', ''Swap'', ''SwapWithFreeFunds''],
        JObj [(''name'', JStr ''orderPacket''), (''type'', JObj [(''defined'', JStr ''OrderPacket'')])]),
     ([''PlaceMultiplePostOnlyOrders'', ''PlaceMultiplePostOnlyOrdersWithFreeFunds''],
        JObj [(''name'', JStr ''multipleOrderPacket''), (''type'', JObj [(''defined'', JStr ''MultipleOrderPacket'')])]),
     ([''CancelUpTo'', ''CancelUpToWithFreeFunds'', ''ForceCancelOrders''],
        JObj [(''name'', JStr ''params''), (''type'', JObj [(''defined'', JStr ''CancelUpToParams'')])]),
     ([''DepositFunds''], JObj [(''name'', JStr ''depositFundsParams''), (''type'', JObj [(''defined'', JStr ''DepositParams'')])]),
     ([''WithdrawFunds''], JObj [(''name'', JStr ''withdrawFundsParams''), (''type'', JObj [(''defined'', JStr ''WithdrawParams'')])]),
     ([''ChangeSeatStatus''], JObj [(''name'', JStr ''approvalStatus''), (''type'', JObj [(''defined'', JStr ''SeatApprovalStatus'')])]),
     ([''ChangeMarketStatus''], JObj [(''name'', JStr ''marketStatus''), (''type'', JObj [(''defined'', JStr ''MarketStatus'')])]),
     ([''InitializeMarket''], JObj [(''name'', JStr ''initializeParams''), (''type'', JObj [(''defined'', JStr ''InitializeParams'')])]),
     ([''NameSuccessor''], JObj [(''name'', JStr ''successor''), (''type'', JStr ''publicKey'')])]"

text \<open>
  \<^verbatim>\<open>instruction.name === "A" || instruction.name === "B" ...\<close>: strict equality with a string
  literal holds for that string only.
\<close>

fun name_is :: "'n json option \<Rightarrow> string list \<Rightarrow> bool" where
  "name_is (Some (JStr s)) names = (s \<in> set names)"
| "name_is _ names = False"

text \<open>One \<^verbatim>\<open>if\<close> statement of the loop body.\<close>

definition patch_if :: "'n patch \<Rightarrow> 'n json \<Rightarrow> js_error + 'n json" where
  "patch_if p instruction =
     (case get_prop instruction ''name'' of
        Inl e \<Rightarrow> Inl e
      | Inr n \<Rightarrow> if name_is n (fst p) then args_push instruction (snd p) else Inr instruction)"

text \<open>The loop body: the \<^verbatim>\<open>if\<close> statements one after the other, each on the instruction as
  the earlier ones left it; a throw ends it.\<close>

fun patch_seq :: "'n patch list \<Rightarrow> 'n json \<Rightarrow> js_error + 'n json" where
  "patch_seq [] instruction = Inr instruction"
| "patch_seq (p # ps) instruction =
     (case patch_if p instruction of
        Inl e \<Rightarrow> Inl e
      | Inr instruction' \<Rightarrow> patch_seq ps instruction')"

definition patch_instruction :: "'n json \<Rightarrow> js_error + 'n json" where
  "patch_instruction instruction = patch_seq patches instruction"

text \<open>\<^verbatim>\<open>for (const instruction of ...)\<close> over the elements, in order.\<close>

fun for_of :: "'n json list \<Rightarrow> js_error + 'n json list" where
  "for_of [] = Inr []"
| "for_of (i # is) =
     (case patch_instruction i of
        Inl e \<Rightarrow> Inl e
      | Inr i' \<Rightarrow> (case for_of is of Inl e \<Rightarrow> Inl e | Inr is' \<Rightarrow> Inr (i' # is')))"

text \<open>
  The loop of \<^verbatim>\<open>mutateIdl\<close> on the loaded value. \<^verbatim>\<open>idl.instructions\<close> must be iterable:
  an array, or a string, whose elements are one-character strings (primitives, which
  the body leaves as they are); anything else, \<^verbatim>\<open>undefined\<close> included, throws a TypeError.
\<close>

definition patch_loop :: "'n json \<Rightarrow> js_error + 'n json" where
  "patch_loop idl =
     (case get_prop idl ''instructions'' of
        Inl e \<Rightarrow> Inl e
      | Inr None \<Rightarrow> Inl TypeError
      | Inr (Some (JArr is)) \<Rightarrow>
          (case for_of is of
             Inl e \<Rightarrow> Inl e
           | Inr is' \<Rightarrow> Inr (with_prop idl ''instructions'' (JArr is')))
      | Inr (Some (JStr s)) \<Rightarrow>
          (case for_of (map (\<lambda>c. JStr [c]) s :: 'n json list) of
             Inl e \<Rightarrow> Inl e
           | Inr _ \<Rightarrow> Inr idl)
      | Inr (Some _) \<Rightarrow> Inl TypeError)"

section \<open>Files, console and process\<close>

text \<open>
  The file system maps a path to the content of the file there. The content type \<open>'c\<close> and
  the two functions of the runtime that go between contents and values,
  \<^verbatim>\<open>JSON.parse\<close> (\<open>None\<close> when it throws a SyntaxError) and
  \<^verbatim>\<open>JSON.stringify(\<cdot>, null, 2)\<close>, are parameters of everything below.
\<close>

datatype line = Out string | Err string | ErrObj js_error

record 'c world =
  files :: "string \<rightharpoonup> 'c"
  console :: "line list"

definition console_log :: "string \<Rightarrow> 'c world \<Rightarrow> 'c world" where
  "console_log s w = w\<lparr>console := console w @ [Out s]\<rparr>"

definition console_error :: "string \<Rightarrow> 'c world \<Rightarrow> 'c world" where
  "console_error s w = w\<lparr>console := console w @ [Err s]\<rparr>"

definition console_error_obj :: "js_error \<Rightarrow> 'c world \<Rightarrow> 'c world" where
  "console_error_obj e w = w\<lparr>console := console w @ [ErrObj e]\<rparr>"

text \<open>How a script's process stands: still running, ended by \<^verbatim>\<open>process.exit(n)\<close>, or
  stopped by an exception nobody caught or a rejection nobody handled.\<close>

datatype status = Running | Exited nat | Uncaught js_error | UnhandledRejection js_error

text \<open>
  \<^verbatim>\<open>path.join(dir, file)\<close> on what the scripts give it: \<^verbatim>\<open>__dirname\<close>, a normalised absolute
  directory name, or a path joined from it, and a plain name. The two are joined with one
  separator: none is added after the root directory \<^verbatim>\<open>/\<close>, whose name ends with it.
\<close>

definition path_join :: "string \<Rightarrow> string \<Rightarrow> string" where
  "path_join dir file =
     (if dir = [] then file
      else if last dir = CHR ''/'' then dir @ file
      else dir @ ''/'' @ file)"

text \<open>Loading a JSON document: its value, or the SyntaxError of \<^verbatim>\<open>JSON.parse\<close>.\<close>

definition load_json :: "('c \<Rightarrow> 'n json option) \<Rightarrow> 'c \<Rightarrow> js_error + 'n json" where
  "load_json JSON_parse c = (case JSON_parse c of None \<Rightarrow> Inl SyntaxError | Some v \<Rightarrow> Inr v)"

text \<open>
  \<^verbatim>\<open>require(path)\<close> of an absolute path that ends in \<^verbatim>\<open>.json\<close>, not loaded before in this
  process. A file at the path is loaded as a JSON document. Where there is none, Node tries
  \<^verbatim>\<open>path.js\<close>, \<^verbatim>\<open>path.json\<close>, \<^verbatim>\<open>path.node\<close> and a directory of that name, in this order,
  before it throws. Of these only \<^verbatim>\<open>path.json\<close> is a JSON document; the others are JavaScript
  code, add-ons and packages, and the file system here is taken to hold none of them at
  these names.
\<close>

definition require :: "('c \<Rightarrow> 'n json option) \<Rightarrow> (string \<rightharpoonup> 'c) \<Rightarrow> string \<Rightarrow> js_error + 'n json" where
  "require JSON_parse fs path =
     (case fs path of
        Some c \<Rightarrow> load_json JSON_parse c
      | None \<Rightarrow>
          (case fs (path @ ''.json'') of
             Some c \<Rightarrow> load_json JSON_parse c
           | None \<Rightarrow> Inl ModuleNotFound))"

section \<open>\<^verbatim>\<open>idl/generateIdl.js\<close>\<close>

definition generateIdl_PROGRAM_NAME :: string where
  "generateIdl_PROGRAM_NAME = ''phoenix''"

definition generateIdl_generatedIdlPath :: "string \<Rightarrow> string" where
  "generateIdl_generatedIdlPath dirname = path_join dirname (generateIdl_PROGRAM_NAME @ ''.json'')"

text \<open>
  \<^verbatim>\<open>mutateIdl\<close>: log, load, patch, save. A throw (the second component) leaves the
  file system as it was: the only write is the last statement.
\<close>

definition mutateIdl ::
  "('c \<Rightarrow> 'n json option) \<Rightarrow> ('n json \<Rightarrow> 'c) \<Rightarrow> string \<Rightarrow> 'c world \<Rightarrow> 'c world \<times> js_error option" where
  "mutateIdl JSON_parse JSON_stringify dirname w =
     (let w1 = console_error ''Mutating IDL'' w;
          generatedIdlPath = generateIdl_generatedIdlPath dirname
      in case require JSON_parse (files w1) generatedIdlPath of
           Inl e \<Rightarrow> (w1, Some e)
         | Inr idl \<Rightarrow>
             (case patch_loop idl of
                Inl e \<Rightarrow> (w1, Some e)
              | Inr idl' \<Rightarrow>
                  (w1\<lparr>files := (files w1)(generatedIdlPath \<mapsto> JSON_stringify idl')\<rparr>, None)))"

text \<open>
  What the spawned \<^verbatim>\<open>shank\<close> process makes the script see: an \<^verbatim>\<open>error\<close> event with the
  error, an \<^verbatim>\<open>exit\<close> event with the exit code (\<open>None\<close> when a signal ended the child), and
  \<^verbatim>\<open>data\<close> events of its two output streams.
\<close>

datatype child_event =
    ErrorEvent js_error
  | ExitEvent "int option"
  | StdoutData string
  | StderrData string

definition ENOENT_hint :: string where
  "ENOENT_hint = ''Ensure that `shank` is installed and in your path, see:'' @ [CHR 0x0A] @
     ''  https://github.com/metaplex-foundation/shank'' @ [CHR 0x0A]"

text \<open>The four listeners that \<^verbatim>\<open>main\<close> registers. The \<^verbatim>\<open>exit\<close> listener takes no
  argument; what \<^verbatim>\<open>mutateIdl\<close> throws there is caught by nobody.\<close>

fun on_event ::
  "('c \<Rightarrow> 'n json option) \<Rightarrow> ('n json \<Rightarrow> 'c) \<Rightarrow> string \<Rightarrow> child_event \<Rightarrow> 'c world \<Rightarrow> 'c world \<times> status" where
  "on_event JSON_parse JSON_stringify dirname (ErrorEvent err) w =
     (let w1 = console_error_obj err w;
          w2 = (if err = SystemError ''ENOENT'' then console_error ENOENT_hint w1 else w1)
      in (w2, Exited 1))"
| "on_event JSON_parse JSON_stringify dirname (ExitEvent code) w =
     (case mutateIdl JSON_parse JSON_stringify dirname w of
        (w', None) \<Rightarrow> (w', Running)
      | (w', Some e) \<Rightarrow> (w', Uncaught e))"
| "on_event JSON_parse JSON_stringify dirname (StdoutData buf) w = (console_log buf w, Running)"
| "on_event JSON_parse JSON_stringify dirname (StderrData buf) w = (console_error buf w, Running)"

text \<open>The events reach the listeners one after the other for as long as the process runs.\<close>

fun dispatch ::
  "('c \<Rightarrow> 'n json option) \<Rightarrow> ('n json \<Rightarrow> 'c) \<Rightarrow> string \<Rightarrow> child_event list \<Rightarrow> 'c world \<times> status \<Rightarrow> 'c world \<times> status" where
  "dispatch JSON_parse JSON_stringify dirname [] ws = ws"
| "dispatch JSON_parse JSON_stringify dirname (ev # evs) (w, Running) =
     dispatch JSON_parse JSON_stringify dirname evs (on_event JSON_parse JSON_stringify dirname ev w)"
| "dispatch JSON_parse JSON_stringify dirname (ev # evs) (w, st) = (w, st)"

text \<open>
  \<^verbatim>\<open>main().catch(...)\<close>: \<open>rustbin\<close> is what awaiting \<^verbatim>\<open>rustbinMatch\<close> gives, a rejection
  or the path of the executable, and \<open>events\<close> is what the spawned child then emits.
\<close>

definition generateIdl_main ::
  "('c \<Rightarrow> 'n json option) \<Rightarrow> ('n json \<Rightarrow> 'c) \<Rightarrow> string \<Rightarrow> js_error + string \<Rightarrow> child_event list \<Rightarrow> 'c world \<Rightarrow> 'c world \<times> status" where
  "generateIdl_main JSON_parse JSON_stringify dirname rustbin events w =
     (case rustbin of
        Inl err \<Rightarrow> (console_error_obj err w, Exited 1)
      | Inr shankExecutable \<Rightarrow> dispatch JSON_parse JSON_stringify dirname events (w, Running))"

section \<open>\<^verbatim>\<open>idl/generateClient.js\<close>\<close>

definition generateClient_PROGRAM_NAME :: string where
  "generateClient_PROGRAM_NAME = ''phoenix_v1''"

definition generateClient_generatedIdlPath :: "string \<Rightarrow> string" where
  "generateClient_generatedIdlPath dirname =
     path_join dirname (generateClient_PROGRAM_NAME @ ''.json'')"

definition sdkDir :: "string \<Rightarrow> string" where
  "sdkDir dirname = path_join (path_join dirname ''src'') ''generated''"

text \<open>How the call of an async function ends: its promise is fulfilled or rejected, or
  \<^verbatim>\<open>process.exit\<close> ends the process while the promise is still pending.\<close>

datatype 'a completion = Fulfilled 'a | Rejected js_error | ProcessExit nat

text \<open>
  \<^verbatim>\<open>generateTypeScriptSDK\<close>. The generator library is the parameter \<open>solita\<close>: given the
  schema and the target directory it rejects or writes files.
\<close>

definition generateTypeScriptSDK ::
  "('c \<Rightarrow> 'n json option) \<Rightarrow> ('n json \<Rightarrow> string \<Rightarrow> (string \<rightharpoonup> 'c) \<Rightarrow> js_error + (string \<rightharpoonup> 'c)) \<Rightarrow>
   string \<Rightarrow> 'c world \<Rightarrow> 'c world \<times> unit completion" where
  "generateTypeScriptSDK JSON_parse solita dirname w =
     (let w1 = console_error (''Generating TypeScript SDK to '' @ sdkDir dirname) w;
          generatedIdlPath = generateClient_generatedIdlPath dirname
      in case require JSON_parse (files w1) generatedIdlPath of
           Inl e \<Rightarrow> (w1, Rejected e)
         | Inr idl \<Rightarrow>
             (case solita idl (sdkDir dirname) (files w1) of
                Inl e \<Rightarrow> (w1, Rejected e)
              | Inr fs \<Rightarrow> (console_error ''Success!'' (w1\<lparr>files := fs\<rparr>), ProcessExit 0)))"

text \<open>\<^verbatim>\<open>promise.then(callback)\<close>, with nothing chained after it: the callback runs once the
  promise is fulfilled, and a rejection, of the promise or by the callback, is handled by
  nobody.\<close>

fun then_unhandled ::
  "'c world \<times> 'a completion \<Rightarrow> ('a \<Rightarrow> 'c world \<Rightarrow> 'c world \<times> js_error option) \<Rightarrow> 'c world \<times> status" where
  "then_unhandled (w, Fulfilled x) callback =
     (case callback x w of (w', None) \<Rightarrow> (w', Running) | (w', Some e) \<Rightarrow> (w', UnhandledRejection e))"
| "then_unhandled (w, Rejected e) callback = (w, UnhandledRejection e)"
| "then_unhandled (w, ProcessExit n) callback = (w, Exited n)"

text \<open>The callback of \<^verbatim>\<open>main\<close>: evaluating the undeclared \<^verbatim>\<open>conoole\<close> throws.\<close>

definition done_callback :: "unit \<Rightarrow> 'c world \<Rightarrow> 'c world \<times> js_error option" where
  "done_callback u w = (w, Some ReferenceError)"

text \<open>
  \<^verbatim>\<open>main().catch(...)\<close>: \<^verbatim>\<open>main\<close> does not await the chain it starts, so its own promise is
  fulfilled at once and the \<^verbatim>\<open>catch\<close> handler never runs.
\<close>

definition generateClient_main ::
  "('c \<Rightarrow> 'n json option) \<Rightarrow> ('n json \<Rightarrow> string \<Rightarrow> (string \<rightharpoonup> 'c) \<Rightarrow> js_error + (string \<rightharpoonup> 'c)) \<Rightarrow>
   string \<Rightarrow> 'c world \<Rightarrow> 'c world \<times> status" where
  "generateClient_main JSON_parse solita dirname w =
     then_unhandled (generateTypeScriptSDK JSON_parse solita dirname w) done_callback"

section \<open>Notions used to state the properties\<close>

text \<open>The instruction sequence of a schema and the argument sequence of an instruction, as
  the lists they are when they are arrays.\<close>

definition instructions :: "'n json \<Rightarrow> 'n json list" where
  "instructions idl =
     (case get_prop idl ''instructions'' of Inr (Some (JArr is)) \<Rightarrow> is | _ \<Rightarrow> [])"

definition args :: "'n json \<Rightarrow> 'n json list" where
  "args instruction =
     (case get_prop instruction ''args'' of Inr (Some (JArr xs)) \<Rightarrow> xs | _ \<Rightarrow> [])"

text \<open>The condition of the \<^verbatim>\<open>if\<close> statement \<open>p\<close> holds on the instruction.\<close>

definition matched :: "'n json \<Rightarrow> 'n patch \<Rightarrow> bool" where
  "matched instruction p =
     (case get_prop instruction ''name'' of Inl e \<Rightarrow> False | Inr n \<Rightarrow> name_is n (fst p))"

definition unmatched :: "'n json \<Rightarrow> bool" where
  "unmatched instruction = list_all (\<lambda>p. \<not> matched instruction p) patches"

text \<open>Two values are the same but for the slot of property \<open>k\<close>: the same properties in the
  same order, with the same values everywhere else.\<close>

fun same_but :: "string \<Rightarrow> 'n json \<Rightarrow> 'n json \<Rightarrow> bool" where
  "same_but k (JObj ps) (JObj qs) =
     list_all2 (\<lambda>x y. fst x = fst y \<and> (fst x \<noteq> k \<longrightarrow> snd x = snd y)) ps qs"
| "same_but k v w = (v = w)"

text \<open>The patch loop run on a schema and again on its result.\<close>

definition patch_twice :: "'n json \<Rightarrow> js_error + 'n json" where
  "patch_twice idl = (case patch_loop idl of Inl e \<Rightarrow> Inl e | Inr idl' \<Rightarrow> patch_loop idl')"


text \<open>The events that run the \<^verbatim>\<open>exit\<close> listener.\<close>

fun is_exit :: "child_event \<Rightarrow> bool" where
  "is_exit (ExitEvent code) = True"
| "is_exit _ = False"

section \<open>A small schema to run the scripts on\<close>

text \<open>
  Three instructions: \<^verbatim>\<open>Swap\<close> and \<^verbatim>\<open>DepositFunds\<close>, which the loop patches (the second
  already has an argument), and \<^verbatim>\<open>RequestSeat\<close>, which it does not; then a type and an error.
\<close>

definition example_idl :: "int json" where
  "example_idl =
     JObj [(''version'', JStr ''0.2.2''),
           (''name'', JStr ''phoenix''),
           (''instructions'', JArr
              [JObj [(''name'', JStr ''Swap''), (''accounts'', JArr []), (''args'', JArr []),
                     (''discriminant'', JObj [(''type'', JStr ''u8''), (''value'', JNum 0)])],
               JObj [(''name'', JStr ''DepositFunds''), (''accounts'', JArr []),
                     (''args'', JArr [JObj [(''name'', JStr ''memo''), (''type'', JStr ''u8'')]]),
                     (''discriminant'', JObj [(''type'', JStr ''u8''), (''value'', JNum 13)])],
               JObj [(''name'', JStr ''RequestSeat''), (''accounts'', JArr []), (''args'', JArr []),
                     (''discriminant'', JObj [(''type'', JStr ''u8''), (''value'', JNum 14)])]]),
           (''types'', JArr [JObj [(''name'', JStr ''DepositParams'')]]),
           (''errors'', JArr [JObj [(''code'', JNum 0), (''name'', JStr ''InvalidMarketParameters'')]])]"

definition example_patched :: "int json" where
  "example_patched =
     JObj [(''version'', JStr ''0.2.2''),
           (''name'', JStr ''phoenix''),
           (''instructions'', JArr
              [JObj [(''name'', JStr ''Swap''), (''accounts'', JArr []),
                     (''args'', JArr [JObj [(''name'', JStr ''orderPacket''),
                                            (''type'', JObj [(''defined'', JStr ''OrderPacket'')])]]),
                     (''discriminant'', JObj [(''type'', JStr ''u8''), (''value'', JNum 0)])],
               JObj [(''name'', JStr ''DepositFunds''), (''accounts'', JArr []),
                     (''args'', JArr [JObj [(''name'', JStr ''memo''), (''type'', JStr ''u8'')],
                                      JObj [(''name'', JStr ''depositFundsParams''),
                                            (''type'', JObj [(''defined'', JStr ''DepositParams'')])]]),
                     (''discriminant'', JObj [(''type'', JStr ''u8''), (''value'', JNum 13)])],
               JObj [(''name'', JStr ''RequestSeat''), (''accounts'', JArr []), (''args'', JArr []),
                     (''discriminant'', JObj [(''type'', JStr ''u8''), (''value'', JNum 14)])]]),
           (''types'', JArr [JObj [(''name'', JStr ''DepositParams'')]]),
           (''errors'', JArr [JObj [(''code'', JNum 0), (''name'', JStr ''InvalidMarketParameters'')]])]"

text \<open>The patches of the two patched instructions, as they stand in the table.\<close>

definition swap_patch :: "int patch" where
  "swap_patch =
     ([''PlaceLimitOrder'', ''PlaceLimitOrderWithFreeFunds'', ''Swap'', ''SwapWithFreeFunds''],
      JObj [(''name'', JStr ''orderPacket''), (''type'', JObj [(''defined'', JStr ''OrderPacket'')])])"

definition deposit_patch :: "int patch" where
  "deposit_patch =
     ([''DepositFunds''],
      JObj [(''name'', JStr ''depositFundsParams''), (''type'', JObj [(''defined'', JStr ''DepositParams'')])])"

text \<open>A schema of one instruction that the loop patches.\<close>

definition swap_only :: "int json" where
  "swap_only = JObj [(''instructions'', JArr [JObj [(''name'', JStr ''Swap''), (''args'', JArr [])]])]"

text \<open>
  File systems to run the scripts on. Here the content of a file is represented by what
  \<^verbatim>\<open>JSON.parse\<close> makes of it, \<open>None\<close> for a text that is not JSON, so that parsing is
  \<open>id\<close> and serialising is \<open>Some\<close>. The scripts are in \<^verbatim>\<open>/idl\<close>.
\<close>

definition example_world :: "int json option world" where
  "example_world = \<lparr>files = [''/idl/phoenix.json'' \<mapsto> Some example_idl], console = []\<rparr>"





text \<open>The file that \<^verbatim>\<open>generateClient.js\<close> loads, and a generator that writes one file.\<close>

definition client_world :: "int json option world" where
  "client_world = \<lparr>files = [''/idl/phoenix_v1.json'' \<mapsto> Some example_patched], console = []\<rparr>"

definition example_solita ::
  "int json \<Rightarrow> string \<Rightarrow> (string \<rightharpoonup> int json option) \<Rightarrow> js_error + (string \<rightharpoonup> int json option)" where
  "example_solita idl dir fs = Inr (fs(path_join dir ''index.ts'' \<mapsto> None))"

section \<open>Facts about the loop body and the loop\<close>

lemma same_but_refl: "same_but k v v"
  by (cases v) (simp_all add: list_all2_same)

lemma update_same_but:
  "k \<in> fst ` set ps \<Longrightarrow>
   list_all2 (\<lambda>x y. fst x = fst y \<and> (fst x \<noteq> k \<longrightarrow> snd x = snd y)) ps (AList.update k v ps)"
  by (induction ps) (auto simp: list_all2_same)

lemma with_prop_same_but:
  "get_prop v k = Inr (Some w) \<Longrightarrow> same_but k v (with_prop v k w')"
proof (cases v)
  case (JObj ps)
  assume "get_prop v k = Inr (Some w)"
  with JObj have "map_of ps k = Some w" by simp
  then have "k \<in> fst ` set ps" by (metis domI dom_map_of_conv_image_fst)
  with JObj show ?thesis by (simp add: update_same_but)
qed simp_all

lemma with_prop_get:
  "get_prop v k = Inr (Some w) \<Longrightarrow> get_prop (with_prop v k w') k' = (if k' = k then Inr (Some w') else get_prop v k')"
  by (cases v) (auto simp: update_conv')

lemma same_but_keys: "same_but k v w \<Longrightarrow> object_keys w = object_keys v"
  apply (cases v; cases w) apply (auto simp: list_all2_conv_all_nth intro!: nth_equalityI)
  done

lemma args_push_Inr:
  "args_push i a = Inr i' \<Longrightarrow>
   \<exists>xs. get_prop i ''args'' = Inr (Some (JArr xs)) \<and> i' = with_prop i ''args'' (JArr (xs @ [a]))"
  by (auto simp: args_push_def split: sum.splits option.splits json.splits)

lemma args_push_array:
  "get_prop i ''args'' = Inr (Some (JArr xs)) \<Longrightarrow>
   args_push i a = Inr (with_prop i ''args'' (JArr (xs @ [a])))"
  by (simp add: args_push_def)

lemma args_push_name:
  assumes "args_push i a = Inr i'"
  shows "get_prop i' ''name'' = get_prop i ''name''"
proof -
  from args_push_Inr [OF assms] obtain xs where
    "get_prop i ''args'' = Inr (Some (JArr xs))" "i' = with_prop i ''args'' (JArr (xs @ [a]))"
    by blast
  then show ?thesis by (simp add: with_prop_get)
qed

lemma patch_seq_unmatched:
  "get_prop i ''name'' = Inr n \<Longrightarrow> \<forall>p\<in>set ps. \<not> name_is n (fst p) \<Longrightarrow> patch_seq ps i = Inr i"
  by (induction ps) (simp_all add: patch_if_def)

lemma patch_seq_once:
  assumes "get_prop i ''name'' = Inr n" "name_is n (fst p)"
    and "\<forall>q\<in>set ps1 \<union> set ps2. \<not> name_is n (fst q)"
  shows "patch_seq (ps1 @ p # ps2) i = args_push i (snd p)"
  using assms(3)
proof (induction ps1)
  case Nil
  show ?case
  proof (cases "args_push i (snd p)")
    case (Inl e)
    with assms show ?thesis by (simp add: patch_if_def)
  next
    case (Inr i')
    then have "get_prop i' ''name'' = Inr n" using assms(1) by (simp add: args_push_name)
    then have "patch_seq ps2 i' = Inr i'" using Nil by (intro patch_seq_unmatched) auto
    with Inr assms show ?thesis by (simp add: patch_if_def)
  qed
next
  case (Cons q ps1)
  then show ?case using assms(1) by (simp add: patch_if_def)
qed

lemma names_distinct: "distinct (concat (map fst (patches :: 'n patch list)))"
  by (simp add: patches_def)

lemma name_is_str: "name_is n names \<Longrightarrow> \<exists>s. n = Some (JStr s) \<and> s \<in> set names"
  by (cases "(n, names)" rule: name_is.cases) auto

lemma patch_instruction_matched:
  assumes "p \<in> set patches" "matched i p"
  shows "patch_instruction i = args_push i (snd p)"
proof -
  from assms(2) obtain n where n: "get_prop i ''name'' = Inr n" "name_is n (fst p)"
    by (auto simp: matched_def split: sum.splits)
  then obtain s where s: "n = Some (JStr s)" "s \<in> set (fst p)" by (blast dest: name_is_str)
  from assms(1) obtain ps1 ps2 where sp: "patches = ps1 @ p # ps2" by (blast dest: split_list)
  have "distinct (concat (map fst (ps1 @ p # ps2)))" using names_distinct [where ?'n = 'n] sp by simp
  then have "\<forall>q\<in>set ps1 \<union> set ps2. s \<notin> set (fst q)" using s(2) by auto
  then have "\<forall>q\<in>set ps1 \<union> set ps2. \<not> name_is n (fst q)" using s(1) by simp
  from patch_seq_once [OF n this] show ?thesis by (simp add: patch_instruction_def sp)
qed

lemma patch_instruction_unmatched:
  assumes "get_prop i ''name'' = Inr n" "unmatched i"
  shows "patch_instruction i = Inr i"
  using assms by (auto simp: patch_instruction_def matched_def unmatched_def list_all_iff intro!: patch_seq_unmatched)

lemma patch_instruction_null: "get_prop i ''name'' = Inl e \<Longrightarrow> patch_instruction i = Inl e"
  by (simp add: patch_instruction_def patches_def patch_if_def)

lemma for_of_Inr:
  "for_of is = Inr is' \<Longrightarrow> list_all2 (\<lambda>i i'. patch_instruction i = Inr i') is is'"
  by (induction "is" arbitrary: is') (auto split: sum.splits)

lemma patch_loop_array:
  assumes "patch_loop idl = Inr idl'" "get_prop idl ''instructions'' = Inr (Some (JArr is))"
  shows "\<exists>is'. for_of is = Inr is' \<and> idl' = with_prop idl ''instructions'' (JArr is')"
  using assms by (auto simp: patch_loop_def split: sum.splits)

lemma patch_loop_not_array:
  assumes "patch_loop idl = Inr idl'" "\<forall>is. get_prop idl ''instructions'' \<noteq> Inr (Some (JArr is))"
  shows "idl' = idl"
  using assms by (auto simp: patch_loop_def split: sum.splits option.splits json.splits)

lemma patch_loop_instructions:
  assumes "patch_loop idl = Inr idl'"
  shows "list_all2 (\<lambda>i i'. patch_instruction i = Inr i') (instructions idl) (instructions idl')"
proof (cases "\<exists>is. get_prop idl ''instructions'' = Inr (Some (JArr is))")
  case True
  then obtain "is" where a: "get_prop idl ''instructions'' = Inr (Some (JArr is))" by blast
  from patch_loop_array [OF assms a] obtain is' where
    b: "for_of is = Inr is'" "idl' = with_prop idl ''instructions'' (JArr is')" by blast
  from a b(2) have "instructions idl' = is'" by (simp add: instructions_def with_prop_get)
  moreover from a have "instructions idl = is" by (simp add: instructions_def)
  ultimately show ?thesis using for_of_Inr [OF b(1)] by simp
next
  case False
  then have "idl' = idl" using assms by (intro patch_loop_not_array) auto
  moreover from False have "instructions idl = []"
    by (auto simp: instructions_def split: sum.splits option.splits json.splits)
  ultimately show ?thesis by simp
qed

lemma patch_loop_same_but:
  assumes "patch_loop idl = Inr idl'"
  shows "same_but ''instructions'' idl idl'"
proof (cases "\<exists>is. get_prop idl ''instructions'' = Inr (Some (JArr is))")
  case True
  then obtain "is" where a: "get_prop idl ''instructions'' = Inr (Some (JArr is))" by blast
  from patch_loop_array [OF assms a] show ?thesis using a by (auto simp: with_prop_same_but)
next
  case False
  then have "idl' = idl" using assms by (intro patch_loop_not_array) auto
  then show ?thesis by (simp add: same_but_refl)
qed

lemma patch_instruction_cases:
  assumes "patch_instruction i = Inr i'"
  obtains (hit) p where "p \<in> set patches" "matched i p" "args_push i (snd p) = Inr i'"
  | (miss) "unmatched i" "i' = i"
proof (cases "\<exists>p\<in>set patches. matched i p")
  case True
  then obtain p where p: "p \<in> set patches" "matched i p" by blast
  with assms have "args_push i (snd p) = Inr i'" by (simp add: patch_instruction_matched)
  with p show ?thesis by (rule hit)
next
  case False
  obtain n where "get_prop i ''name'' = Inr n"
    using assms by (cases "get_prop i ''name''") (simp_all add: patch_instruction_null)
  moreover from False have u: "unmatched i" by (simp add: unmatched_def list_all_iff)
  ultimately have "i' = i" using assms by (simp add: patch_instruction_unmatched)
  with u show ?thesis by (rule miss)
qed

lemma patch_instruction_same_but:
  assumes "patch_instruction i = Inr i'"
  shows "same_but ''args'' i i'"
  using assms
proof (cases rule: patch_instruction_cases)
  case (hit p)
  from args_push_Inr [OF hit(3)] show ?thesis by (auto simp: with_prop_same_but)
next
  case miss
  then show ?thesis by (simp add: same_but_refl)
qed

lemma patch_instruction_args:
  assumes "patch_instruction i = Inr i'" "p \<in> set patches" "matched i p"
  shows "args i' = args i @ [snd p]"
proof -
  from assms have "args_push i (snd p) = Inr i'" by (simp add: patch_instruction_matched)
  from args_push_Inr [OF this] show ?thesis by (auto simp: args_def with_prop_get)
qed

lemma same_but_get:
  assumes "same_but k v w" "k' \<noteq> k"
  shows "get_prop w k' = get_prop v k'"
proof (cases v)
  case (JObj ps)
  with assms(1) obtain qs where w: "w = JObj qs"
    and l: "list_all2 (\<lambda>x y. fst x = fst y \<and> (fst x \<noteq> k \<longrightarrow> snd x = snd y)) ps qs"
    by (cases w) auto
  from l have "map_of qs k' = map_of ps k'"
    using assms(2) by (induction rule: list_all2_induct) (auto simp: prod_eq_iff)
  with JObj w show ?thesis by simp
qed (use assms in auto)

lemma unmatched_iff: "unmatched i = (\<forall>p\<in>set patches. \<not> matched i p)"
  by (simp add: unmatched_def list_all_iff)

lemma patches_disjoint:
  "p \<in> set (patches :: 'n patch list) \<Longrightarrow> q \<in> set patches \<Longrightarrow> p \<noteq> q \<Longrightarrow> set (fst p) \<inter> set (fst q) = {}"
  by (simp add: patches_def) (elim disjE; simp)

lemma matched_unique:
  assumes "p \<in> set patches" "q \<in> set patches" "matched i p" "matched i q"
  shows "p = q"
proof (rule ccontr)
  assume "p \<noteq> q"
  with assms have d: "set (fst p) \<inter> set (fst q) = {}" by (simp add: patches_disjoint)
  from assms(3,4) obtain n :: "'a json option" where "name_is n (fst p)" "name_is n (fst q)"
    by (auto simp: matched_def split: sum.splits)
  then obtain s where "s \<in> set (fst p)" "s \<in> set (fst q)" by (auto dest!: name_is_str)
  with d show False by blast
qed

lemma example_patch_loop: "patch_loop example_idl = Inr example_patched"
  by code_simp

lemma example_instructions: "length (instructions example_idl) = 3"
  by (simp add: example_idl_def instructions_def)

lemma example_patches: "deposit_patch \<in> set patches" "swap_patch \<in> set patches"
  by (simp_all add: patches_def deposit_patch_def swap_patch_def)

lemma example_matched:
  "matched (instructions example_idl ! 0) swap_patch"
  "matched (instructions example_idl ! 1) deposit_patch"
  by (simp_all add: example_idl_def instructions_def matched_def deposit_patch_def swap_patch_def)

lemma example_unmatched: "unmatched (instructions example_idl ! 2)"
  by (simp add: example_idl_def instructions_def matched_def unmatched_def patches_def)

lemma patch_instruction_again:
  assumes "patch_instruction i = Inr i1"
  shows "\<exists>i2. patch_instruction i1 = Inr i2 \<and>
           (\<forall>p\<in>set patches. matched i p \<longrightarrow> args i1 = args i @ [snd p] \<and> args i2 = args i @ [snd p, snd p]) \<and>
           (unmatched i \<longrightarrow> i1 = i \<and> i2 = i)"
  using assms
proof (cases rule: patch_instruction_cases)
  case (hit p)
  from args_push_Inr [OF hit(3)] obtain xs where
    xs: "get_prop i ''args'' = Inr (Some (JArr xs))" "i1 = with_prop i ''args'' (JArr (xs @ [snd p]))"
    by blast
  have n: "get_prop i1 ''name'' = get_prop i ''name''" using hit(3) by (rule args_push_name)
  with hit(2) have m: "matched i1 p" by (simp add: matched_def)
  from xs have a1: "get_prop i1 ''args'' = Inr (Some (JArr (xs @ [snd p])))"
    by (simp add: with_prop_get)
  let ?i2 = "with_prop i1 ''args'' (JArr ((xs @ [snd p]) @ [snd p]))"
  have "patch_instruction i1 = Inr ?i2"
    using hit(1) m a1 by (simp add: patch_instruction_matched args_push_array)
  moreover have "args ?i2 = args i @ [snd p, snd p]" "args i1 = args i @ [snd p]"
    using xs a1 by (simp_all add: args_def with_prop_get)
  moreover have "\<forall>q\<in>set patches. matched i q \<longrightarrow> q = p"
    using hit(1,2) by (blast intro: matched_unique)
  moreover have "\<not> unmatched i" using hit(1,2) by (auto simp: unmatched_iff)
  ultimately show ?thesis by auto
next
  case miss
  with assms show ?thesis by (auto simp: unmatched_iff)
qed

lemma for_of_again:
  assumes "list_all2 (\<lambda>i i1. patch_instruction i = Inr i1) is is1"
  shows "\<exists>is2. for_of is1 = Inr is2 \<and>
           list_all2 (\<lambda>i i2. (\<forall>p\<in>set patches. matched i p \<longrightarrow> args i2 = args i @ [snd p, snd p]) \<and>
                              (unmatched i \<longrightarrow> i2 = i)) is is2"
  using assms
proof (induction rule: list_all2_induct)
  case Nil
  then show ?case by simp
next
  case (Cons i "is" i1 is1)
  from patch_instruction_again [OF Cons(1)] obtain i2 where
    "patch_instruction i1 = Inr i2"
    "\<forall>p\<in>set patches. matched i p \<longrightarrow> args i2 = args i @ [snd p, snd p]"
    "unmatched i \<longrightarrow> i2 = i" by blast
  moreover from Cons.IH obtain is2 where "for_of is1 = Inr is2"
     "list_all2 (\<lambda>i i2. (\<forall>p\<in>set patches. matched i p \<longrightarrow> args i2 = args i @ [snd p, snd p]) \<and>
                              (unmatched i \<longrightarrow> i2 = i)) is is2" by blast
  ultimately show ?case by auto
qed

lemma patch_twice_result:
  assumes "patch_loop idl = Inr idl1"
  shows "\<exists>idl2. patch_twice idl = Inr idl2 \<and> same_but ''instructions'' idl idl2 \<and>
           list_all2 (\<lambda>i i2. (\<forall>p\<in>set patches. matched i p \<longrightarrow> args i2 = args i @ [snd p, snd p]) \<and>
                              (unmatched i \<longrightarrow> i2 = i))
             (instructions idl) (instructions idl2)"
proof (cases "\<exists>is. get_prop idl ''instructions'' = Inr (Some (JArr is))")
  case True
  then obtain "is" where a: "get_prop idl ''instructions'' = Inr (Some (JArr is))" by blast
  from patch_loop_array [OF assms a] obtain is1 where
    b: "for_of is = Inr is1" "idl1 = with_prop idl ''instructions'' (JArr is1)" by blast
  from for_of_again [OF for_of_Inr [OF b(1)]] obtain is2 where
    c: "for_of is1 = Inr is2"
      "list_all2 (\<lambda>i i2. (\<forall>p\<in>set patches. matched i p \<longrightarrow> args i2 = args i @ [snd p, snd p]) \<and>
                              (unmatched i \<longrightarrow> i2 = i)) is is2" by blast
  from a b(2) have a1: "get_prop idl1 ''instructions'' = Inr (Some (JArr is1))"
    by (simp add: with_prop_get)
  let ?idl2 = "with_prop idl ''instructions'' (JArr is2)"
  have w: "with_prop idl1 ''instructions'' (JArr is2) = ?idl2"
    using b(2) by (cases idl) simp_all
  have "patch_loop idl1 = Inr ?idl2" using a1 c(1) w by (simp add: patch_loop_def)
  then have "patch_twice idl = Inr ?idl2" using assms by (simp add: patch_twice_def)
  moreover have "same_but ''instructions'' idl ?idl2" using a by (rule with_prop_same_but)
  moreover have "instructions idl = is" "instructions ?idl2 = is2"
    using a by (simp_all add: instructions_def with_prop_get)
  ultimately show ?thesis using c(2) by auto
next
  case False
  then have e: "idl1 = idl" using assms by (intro patch_loop_not_array) auto
  from False have "instructions idl = []"
    by (auto simp: instructions_def split: sum.splits option.splits json.splits)
  with e assms show ?thesis by (simp add: patch_twice_def same_but_refl)
qed

lemma patch_loop_all_unmatched:
  assumes "patch_loop idl = Inr idl1" "list_all unmatched (instructions idl)"
  shows "idl1 = idl"
proof (cases "\<exists>is. get_prop idl ''instructions'' = Inr (Some (JArr is))")
  case True
  then obtain "is" where a: "get_prop idl ''instructions'' = Inr (Some (JArr is))" by blast
  from patch_loop_array [OF assms(1) a] obtain is1 where
    b: "for_of is = Inr is1" "idl1 = with_prop idl ''instructions'' (JArr is1)" by blast
  from a have i: "instructions idl = is" by (simp add: instructions_def)
  have "list_all2 (\<lambda>i i1. patch_instruction i = Inr i1) is is1" using b(1) by (rule for_of_Inr)
  then have "list_all2 (\<lambda>i i1. unmatched i \<longrightarrow> i1 = i) is is1"
  proof (rule list_all2_mono)
    fix i i1 :: "'a json"
    assume "patch_instruction i = Inr i1"
    then show "unmatched i \<longrightarrow> i1 = i"
      by (cases rule: patch_instruction_cases) (auto simp: unmatched_iff)
  qed
  with assms(2) i have "is1 = is"
    by (auto simp: list_all2_conv_all_nth list_all_length intro!: nth_equalityI)
  with a b(2) show ?thesis by (cases idl) (simp_all add: update_triv)
next
  case False
  then show ?thesis using assms(1) by (intro patch_loop_not_array) auto
qed

section \<open>Facts about the two scripts\<close>

lemma path_idl: "generateIdl_generatedIdlPath ''/idl'' = ''/idl/phoenix.json''"
  by (simp add: generateIdl_generatedIdlPath_def generateIdl_PROGRAM_NAME_def path_join_def)

lemma mutateIdl_success:
  assumes "require P (files w) (generateIdl_generatedIdlPath d) = Inr idl" "patch_loop idl = Inr idl'"
  shows "mutateIdl P S d w =
    (console_error ''Mutating IDL'' w \<lparr>files := (files w)(generateIdl_generatedIdlPath d \<mapsto> S idl')\<rparr>, None)"
  using assms by (simp add: mutateIdl_def Let_def console_error_def)

lemma mutateIdl_other_files:
  "path \<noteq> generateIdl_generatedIdlPath d \<Longrightarrow> files (fst (mutateIdl P S d w)) path = files w path"
  by (auto simp: mutateIdl_def Let_def console_error_def split: sum.splits)

lemma on_event_no_exit_files:
  "\<not> is_exit ev \<Longrightarrow> files (fst (on_event P S d ev w)) = files w"
  by (cases ev) (simp_all add: Let_def console_error_def console_error_obj_def console_log_def)

lemma dispatch_no_exit_files:
  "list_all (\<lambda>ev. \<not> is_exit ev) evs \<Longrightarrow> files (fst (dispatch P S d evs (w, st))) = files w"
proof (induction evs arbitrary: w st)
  case Nil
  then show ?case by simp
next
  case (Cons ev evs)
  show ?case
  proof (cases st)
    case Running
    obtain w' st' where o: "on_event P S d ev w = (w', st')" by (cases "on_event P S d ev w")
    with Cons.prems have "files w' = files w" using on_event_no_exit_files [of ev P S d w] by simp
    with Cons o Running show ?thesis by simp
  qed simp_all
qed

lemma dispatch_stopped: "st \<noteq> Running \<Longrightarrow> dispatch P S d evs (w, st) = (w, st)"
  by (cases evs; cases st) simp_all

lemma on_event_error:
  "\<exists>w'. on_event P S d (ErrorEvent err) w = (w', Exited 1) \<and> files w' = files w"
  by (simp add: Let_def console_error_def console_error_obj_def)

lemma example_require: "require id (files example_world) ''/idl/phoenix.json'' = Inr example_idl"
  by (simp add: require_def load_json_def example_world_def)







lemma path_client: "generateClient_generatedIdlPath ''/idl'' = ''/idl/phoenix_v1.json''"
  by (simp add: generateClient_generatedIdlPath_def generateClient_PROGRAM_NAME_def path_join_def)

lemma path_sdk: "sdkDir ''/idl'' = ''/idl/src/generated''"
  by (simp add: sdkDir_def path_join_def)

lemma paths_differ: "generateClient_generatedIdlPath d \<noteq> generateIdl_generatedIdlPath d"
  by (simp add: generateClient_generatedIdlPath_def generateIdl_generatedIdlPath_def
      generateClient_PROGRAM_NAME_def generateIdl_PROGRAM_NAME_def path_join_def)

lemma example_main:
  "generateIdl_main id Some ''/idl'' (Inr ''shank'') [ExitEvent (Some 0)] example_world =
     (\<lparr>files = [''/idl/phoenix.json'' \<mapsto> Some example_patched], console = [Err ''Mutating IDL'']\<rparr>, Running)"
proof -
  have "mutateIdl id Some ''/idl'' example_world =
     (\<lparr>files = [''/idl/phoenix.json'' \<mapsto> Some example_patched], console = [Err ''Mutating IDL'']\<rparr>, None)"
    using mutateIdl_success [of id example_world "''/idl''" example_idl example_patched Some]
      example_require example_patch_loop
    by (simp add: path_idl) (simp add: example_world_def console_error_def)
  then show ?thesis by (simp add: generateIdl_main_def)
qed

lemma generateTypeScriptSDK_cases:
  "(\<exists>w' e. generateTypeScriptSDK P solita d w = (w', Rejected e)) \<or>
   (\<exists>w'. generateTypeScriptSDK P solita d w = (w', ProcessExit 0))"
  by (simp add: generateTypeScriptSDK_def Let_def split: sum.splits)

lemma generateTypeScriptSDK_success:
  assumes "require P (files w) (generateClient_generatedIdlPath d) = Inr idl"
    "solita idl (sdkDir d) (files w) = Inr fs"
  shows "generateTypeScriptSDK P solita d w =
    (console_error ''Success!''
       (console_error (''Generating TypeScript SDK to '' @ sdkDir d) w \<lparr>files := fs\<rparr>), ProcessExit 0)"
  using assms by (simp add: generateTypeScriptSDK_def Let_def console_error_def)

section \<open>Order of the arguments of a patched instruction\<close>

text \<open>
  Claim C5. When the patch loop succeeds on a schema, every instruction of it that a patch
  matches has that patch's argument at the index equal to the length of its original argument
  sequence, that is last, and the arguments before it are the original ones in their order.
\<close>

theorem appended_last:
  assumes "patch_loop idl = Inr idl'" "j < length (instructions idl)"
    and "p \<in> set patches" "matched (instructions idl ! j) p"
  shows "j < length (instructions idl') \<and>
         args (instructions idl' ! j) = args (instructions idl ! j) @ [snd p] \<and>
         args (instructions idl' ! j) ! length (args (instructions idl ! j)) = snd p \<and>
         take (length (args (instructions idl ! j))) (args (instructions idl' ! j)) =
           args (instructions idl ! j)"
proof -
  from patch_loop_instructions [OF assms(1)]
  have l: "length (instructions idl') = length (instructions idl)"
    and "patch_instruction (instructions idl ! j) = Inr (instructions idl' ! j)"
    using assms(2) by (simp_all add: list_all2_conv_all_nth)
  from patch_instruction_args [OF this(2) assms(3,4)] l assms(2) show ?thesis by simp
qed

theorem appended_last_witness:
  "patch_loop example_idl = Inr example_patched \<and> 1 < length (instructions example_idl) \<and>
   deposit_patch \<in> set patches \<and> matched (instructions example_idl ! 1) deposit_patch \<and>
   args (instructions example_idl ! 1) = [JObj [(''name'', JStr ''memo''), (''type'', JStr ''u8'')]] \<and>
   args (instructions example_patched ! 1) =
     [JObj [(''name'', JStr ''memo''), (''type'', JStr ''u8'')],
      JObj [(''name'', JStr ''depositFundsParams''), (''type'', JObj [(''defined'', JStr ''DepositParams'')])]] \<and>
   args (instructions example_patched ! 1) ! 1 = snd deposit_patch"
proof -
  have a: "args (instructions example_idl ! 1) = [JObj [(''name'', JStr ''memo''), (''type'', JStr ''u8'')]]"
    by (simp add: example_idl_def instructions_def args_def)
  have j: "1 < length (instructions example_idl)" by (simp add: example_instructions)
  from appended_last [OF example_patch_loop j example_patches(1) example_matched(2)] a
  show ?thesis
    using example_patch_loop j example_patches(1) example_matched(2)
    by (simp add: deposit_patch_def)
qed

section \<open>Instructions that no patch matches\<close>

text \<open>
  Claim C6. When the patch loop succeeds on a schema, every instruction of it whose name
  matches none of the patches is returned as it was, so its argument sequence is equal by
  value to the one it had.
\<close>

theorem unmatched_unchanged:
  assumes "patch_loop idl = Inr idl'" "j < length (instructions idl)"
    and "unmatched (instructions idl ! j)"
  shows "j < length (instructions idl') \<and>
         instructions idl' ! j = instructions idl ! j \<and>
         args (instructions idl' ! j) = args (instructions idl ! j)"
proof -
  from patch_loop_instructions [OF assms(1)]
  have l: "length (instructions idl') = length (instructions idl)"
    and "patch_instruction (instructions idl ! j) = Inr (instructions idl' ! j)"
    using assms(2) by (simp_all add: list_all2_conv_all_nth)
  from this(2) have "instructions idl' ! j = instructions idl ! j"
  proof (cases rule: patch_instruction_cases)
    case (hit p)
    with assms(3) show ?thesis by (simp add: unmatched_iff)
  qed
  with l assms(2) show ?thesis by simp
qed

theorem unmatched_unchanged_witness:
  "patch_loop example_idl = Inr example_patched \<and> 2 < length (instructions example_idl) \<and>
   unmatched (instructions example_idl ! 2) \<and>
   instructions example_patched ! 2 = instructions example_idl ! 2 \<and>
   args (instructions example_patched ! 2) = []"
proof -
  have j: "2 < length (instructions example_idl)" by (simp add: example_instructions)
  have a: "args (instructions example_idl ! 2) = []"
    by (simp add: example_idl_def instructions_def args_def)
  from unmatched_unchanged [OF example_patch_loop j example_unmatched] a
  show ?thesis using example_patch_loop j example_unmatched by simp
qed

section \<open>One patch for each name\<close>

text \<open>
  Claim C7. The name lists of the patches are pairwise disjoint (the nineteen names of the
  table are distinct), so at most one patch matches an instruction. In one run of the patch
  loop that succeeds, every instruction of the schema whose name is covered by the table
  receives exactly one more argument, the argument of the one patch that matches it, and the
  number of instructions is kept.
\<close>

theorem one_patch_per_name:
  "length (concat (map fst (patches :: 'n patch list))) = 19 \<and>
   distinct (concat (map fst (patches :: 'n patch list))) \<and>
   (\<forall>p\<in>set (patches :: 'n patch list). \<forall>q\<in>set patches.
      p \<noteq> q \<longrightarrow> set (fst p) \<inter> set (fst q) = {}) \<and>
   (\<forall>p\<in>set patches. \<forall>q\<in>set patches. matched (i :: 'n json) p \<and> matched i q \<longrightarrow> p = q) \<and>
   (patch_loop (idl :: 'n json) = Inr idl' \<longrightarrow>
      length (instructions idl') = length (instructions idl) \<and>
      (\<forall>j<length (instructions idl). \<forall>p\<in>set patches. matched (instructions idl ! j) p \<longrightarrow>
         args (instructions idl' ! j) = args (instructions idl ! j) @ [snd p] \<and>
         length (args (instructions idl' ! j)) = Suc (length (args (instructions idl ! j))) \<and>
         (\<forall>q\<in>set patches. matched (instructions idl ! j) q \<longrightarrow> q = p)))"
proof (intro conjI ballI allI impI)
  show "length (concat (map fst (patches :: 'n patch list))) = 19" by (simp add: patches_def)
  show "distinct (concat (map fst (patches :: 'n patch list)))" by (rule names_distinct)
next
  fix p q :: "'n patch"
  assume "p \<in> set patches" "q \<in> set patches" "p \<noteq> q"
  then show "set (fst p) \<inter> set (fst q) = {}" by (rule patches_disjoint)
next
  fix p q :: "'n patch"
  assume "p \<in> set patches" "q \<in> set patches" "matched i p \<and> matched i q"
  then show "p = q" by (blast intro: matched_unique)
next
  assume ok: "patch_loop idl = Inr idl'"
  from patch_loop_instructions [OF ok]
  have l: "list_all2 (\<lambda>i i'. patch_instruction i = Inr i') (instructions idl) (instructions idl')" .
  then show "length (instructions idl') = length (instructions idl)"
    by (simp add: list_all2_lengthD)
  fix j and p :: "'n patch"
  assume j: "j < length (instructions idl)" and p: "p \<in> set patches"
    and m: "matched (instructions idl ! j) p"
  from l j have "patch_instruction (instructions idl ! j) = Inr (instructions idl' ! j)"
    by (simp add: list_all2_conv_all_nth)
  from patch_instruction_args [OF this p m]
  show a: "args (instructions idl' ! j) = args (instructions idl ! j) @ [snd p]" .
  then show "length (args (instructions idl' ! j)) = Suc (length (args (instructions idl ! j)))"
    by simp
  fix q :: "'n patch"
  assume "q \<in> set patches" "matched (instructions idl ! j) q"
  with p m show "q = p" by (blast intro: matched_unique)
qed

theorem one_patch_per_name_witness:
  "patch_loop example_idl = Inr example_patched \<and> 0 < length (instructions example_idl) \<and>
   swap_patch \<in> set patches \<and> matched (instructions example_idl ! 0) swap_patch \<and>
   args (instructions example_idl ! 0) = [] \<and>
   args (instructions example_patched ! 0) = [snd swap_patch] \<and>
   length (instructions example_patched) = 3 \<and>
   deposit_patch \<in> set patches \<and> deposit_patch \<noteq> swap_patch \<and>
   set (fst deposit_patch) \<inter> set (fst swap_patch) = {} \<and>
   \<not> matched (instructions example_idl ! 0) deposit_patch"
proof -
  note t = one_patch_per_name [where i = "instructions example_idl ! 0" and idl = example_idl
      and idl' = example_patched]
  have ne: "deposit_patch \<noteq> swap_patch" by (simp add: deposit_patch_def swap_patch_def)
  have a0: "args (instructions example_idl ! 0) = []"
    by (simp add: example_idl_def instructions_def args_def)
  have j: "0 < length (instructions example_idl)" by (simp add: example_instructions)
  from t have "set (fst deposit_patch) \<inter> set (fst swap_patch) = {}"
    using example_patches ne by blast
  moreover from t have "\<not> matched (instructions example_idl ! 0) deposit_patch"
    using example_patches example_matched(1) ne by blast
  moreover from t have "args (instructions example_patched ! 0) =
      args (instructions example_idl ! 0) @ [snd swap_patch]"
    using example_patch_loop j example_patches(2) example_matched(1) by blast
  moreover from t have "length (instructions example_patched) = length (instructions example_idl)"
    using example_patch_loop by blast
  ultimately show ?thesis
    using example_patch_loop j example_patches example_matched(1) ne a0 example_instructions
    by simp
qed

section \<open>What the loop leaves alone\<close>

text \<open>
  Claim C9. When the patch loop succeeds, the schema is the same but for the slot of
  \<^verbatim>\<open>instructions\<close> (same properties in the same order, \<^verbatim>\<open>types\<close> and \<^verbatim>\<open>errors\<close> among
  them), there are as many instructions as before, and each instruction is, position by
  position, the same but for the slot of \<^verbatim>\<open>args\<close> (its name included), and the same
  altogether when no patch matches it.
\<close>

theorem only_args_change:
  assumes "patch_loop idl = Inr idl'"
  shows "same_but ''instructions'' idl idl' \<and> object_keys idl' = object_keys idl \<and>
         get_prop idl' ''types'' = get_prop idl ''types'' \<and>
         get_prop idl' ''errors'' = get_prop idl ''errors'' \<and>
         length (instructions idl') = length (instructions idl) \<and>
         list_all2 (\<lambda>i i'. same_but ''args'' i i' \<and> object_keys i' = object_keys i \<and>
                      get_prop i' ''name'' = get_prop i ''name'' \<and>
                      (unmatched i \<longrightarrow> i' = i))
           (instructions idl) (instructions idl')"
proof -
  have a: "same_but ''instructions'' idl idl'" using assms by (rule patch_loop_same_but)
  have "list_all2 (\<lambda>i i'. patch_instruction i = Inr i') (instructions idl) (instructions idl')"
    using assms by (rule patch_loop_instructions)
  then have b: "list_all2 (\<lambda>i i'. same_but ''args'' i i' \<and> object_keys i' = object_keys i \<and>
                      get_prop i' ''name'' = get_prop i ''name'' \<and>
                      (unmatched i \<longrightarrow> i' = i))
           (instructions idl) (instructions idl')"
  proof (rule list_all2_mono)
    fix i i' :: "'a json"
    assume pi: "patch_instruction i = Inr i'"
    then have s: "same_but ''args'' i i'" by (rule patch_instruction_same_but)
    have "unmatched i \<longrightarrow> i' = i"
      using pi by (cases rule: patch_instruction_cases) (auto simp: unmatched_iff)
    with s show "same_but ''args'' i i' \<and> object_keys i' = object_keys i \<and>
                      get_prop i' ''name'' = get_prop i ''name'' \<and>
                      (unmatched i \<longrightarrow> i' = i)"
      by (simp add: same_but_keys same_but_get)
  qed
  from a b show ?thesis
    by (simp add: same_but_keys same_but_get list_all2_lengthD)
qed

theorem only_args_change_witness:
  "patch_loop example_idl = Inr example_patched \<and>
   same_but ''instructions'' example_idl example_patched \<and>
   object_keys example_patched = [''version'', ''name'', ''instructions'', ''types'', ''errors''] \<and>
   get_prop example_patched ''types'' = Inr (Some (JArr [JObj [(''name'', JStr ''DepositParams'')]])) \<and>
   get_prop example_patched ''errors'' = get_prop example_idl ''errors'' \<and>
   length (instructions example_patched) = 3 \<and>
   same_but ''args'' (instructions example_idl ! 1) (instructions example_patched ! 1) \<and>
   get_prop (instructions example_patched ! 1) ''name'' = Inr (Some (JStr ''DepositFunds'')) \<and>
   instructions example_patched ! 2 = instructions example_idl ! 2"
proof -
  note t = only_args_change [OF example_patch_loop]
  have k: "object_keys example_idl = [''version'', ''name'', ''instructions'', ''types'', ''errors'']"
    "get_prop example_idl ''types'' = Inr (Some (JArr [JObj [(''name'', JStr ''DepositParams'')]]))"
    "get_prop (instructions example_idl ! 1) ''name'' = Inr (Some (JStr ''DepositFunds''))"
    by (simp_all add: example_idl_def instructions_def)
  from t have l: "list_all2 (\<lambda>i i'. same_but ''args'' i i' \<and> object_keys i' = object_keys i \<and>
                      get_prop i' ''name'' = get_prop i ''name'' \<and>
                      (unmatched i \<longrightarrow> i' = i))
           (instructions example_idl) (instructions example_patched)" by blast
  from l have "same_but ''args'' (instructions example_idl ! 1) (instructions example_patched ! 1)"
    "get_prop (instructions example_patched ! 1) ''name'' = get_prop (instructions example_idl ! 1) ''name''"
    using example_instructions by (auto simp: list_all2_conv_all_nth)
  moreover from l have "instructions example_patched ! 2 = instructions example_idl ! 2"
    using example_instructions example_unmatched by (auto simp: list_all2_conv_all_nth)
  ultimately show ?thesis using t k example_patch_loop example_instructions by simp
qed

section \<open>Running the loop twice\<close>

text \<open>
  Claim C1, as amended. The loop body has no guard on the names already present: it appends
  at each run. When the patch loop succeeds on a schema, so does a second run on the result;
  after it every instruction that a patch matches has that patch's argument twice at the end
  of its original arguments, and every other instruction is as it was. Running the loop twice
  gives the same as running it once exactly when no patch matches any instruction of the
  schema.
\<close>

theorem patch_twice_appends_twice:
  assumes "patch_loop idl = Inr idl1"
  shows "\<exists>idl2. patch_twice idl = Inr idl2 \<and> same_but ''instructions'' idl idl2 \<and>
           list_all2 (\<lambda>i i2. (\<forall>p\<in>set patches. matched i p \<longrightarrow> args i2 = args i @ [snd p, snd p]) \<and>
                              (unmatched i \<longrightarrow> i2 = i))
             (instructions idl) (instructions idl2) \<and>
           (patch_twice idl = patch_loop idl) = list_all unmatched (instructions idl)"
proof -
  from patch_twice_result [OF assms] obtain idl2 where
    t: "patch_twice idl = Inr idl2" "same_but ''instructions'' idl idl2"
      "list_all2 (\<lambda>i i2. (\<forall>p\<in>set patches. matched i p \<longrightarrow> args i2 = args i @ [snd p, snd p]) \<and>
                              (unmatched i \<longrightarrow> i2 = i))
             (instructions idl) (instructions idl2)" by blast
  have "(idl2 = idl1) = list_all unmatched (instructions idl)"
  proof
    assume e: "idl2 = idl1"
    show "list_all unmatched (instructions idl)"
      unfolding list_all_length
    proof (intro allI impI, rule ccontr)
      fix j assume j: "j < length (instructions idl)" and "\<not> unmatched (instructions idl ! j)"
      then obtain p where p: "p \<in> set patches" "matched (instructions idl ! j) p"
        by (auto simp: unmatched_iff)
      have "patch_instruction (instructions idl ! j) = Inr (instructions idl1 ! j)"
        using patch_loop_instructions [OF assms] j by (simp add: list_all2_conv_all_nth)
      from patch_instruction_args [OF this p]
      have "args (instructions idl1 ! j) = args (instructions idl ! j) @ [snd p]" .
      moreover from t(3) j p
      have "args (instructions idl2 ! j) = args (instructions idl ! j) @ [snd p, snd p]"
        by (auto simp: list_all2_conv_all_nth)
      ultimately show False using e by simp
    qed
  next
    assume u: "list_all unmatched (instructions idl)"
    from patch_loop_all_unmatched [OF assms u] have "idl1 = idl" .
    with assms t(1) show "idl2 = idl1" by (simp add: patch_twice_def)
  qed
  with t assms show ?thesis by auto
qed

text \<open>
  Claim C1 as stated fails: on a schema whose only instruction is \<^verbatim>\<open>Swap\<close> without
  arguments, the first run appends \<^verbatim>\<open>orderPacket\<close> and the second run, which finds an
  argument of that name, appends it again.
\<close>

theorem patch_twice_counterexample:
  "patch_loop swap_only =
     Inr (JObj [(''instructions'', JArr [JObj [(''name'', JStr ''Swap''),
                                           (''args'', JArr [snd swap_patch])]])]) \<and>
   patch_twice swap_only =
     Inr (JObj [(''instructions'', JArr [JObj [(''name'', JStr ''Swap''),
                                           (''args'', JArr [snd swap_patch, snd swap_patch])]])]) \<and>
   patch_twice swap_only \<noteq> patch_loop swap_only"
  by code_simp

theorem patch_twice_appends_twice_witness:
  "patch_loop example_idl = Inr example_patched \<and>
   (\<exists>idl2. patch_twice example_idl = Inr idl2 \<and>
      args (instructions idl2 ! 1) =
        [JObj [(''name'', JStr ''memo''), (''type'', JStr ''u8'')], snd deposit_patch, snd deposit_patch] \<and>
      instructions idl2 ! 2 = instructions example_idl ! 2) \<and>
   patch_twice example_idl \<noteq> patch_loop example_idl \<and>
   \<not> list_all unmatched (instructions example_idl)"
proof -
  from patch_twice_appends_twice [OF example_patch_loop] obtain idl2 where
    t: "patch_twice example_idl = Inr idl2"
      "list_all2 (\<lambda>i i2. (\<forall>p\<in>set patches. matched i p \<longrightarrow> args i2 = args i @ [snd p, snd p]) \<and>
                              (unmatched i \<longrightarrow> i2 = i))
             (instructions example_idl) (instructions idl2)"
      "(patch_twice example_idl = patch_loop example_idl) = list_all unmatched (instructions example_idl)"
    by blast
  have a: "args (instructions example_idl ! 1) = [JObj [(''name'', JStr ''memo''), (''type'', JStr ''u8'')]]"
    by (simp add: example_idl_def instructions_def args_def)
  from t(2) have "args (instructions idl2 ! 1) = args (instructions example_idl ! 1) @ [snd deposit_patch, snd deposit_patch]"
    using example_patches(1) example_matched(2) example_instructions
    by (auto simp: list_all2_conv_all_nth)
  moreover from t(2) have "instructions idl2 ! 2 = instructions example_idl ! 2"
    using example_unmatched example_instructions by (auto simp: list_all2_conv_all_nth)
  moreover have "\<not> list_all unmatched (instructions example_idl)"
  proof
    assume "list_all unmatched (instructions example_idl)"
    then have "unmatched (instructions example_idl ! 1)"
      using example_instructions by (simp add: list_all_length)
    with example_matched(2) example_patches(1) show False by (auto simp: unmatched_iff)
  qed
  ultimately show ?thesis using t(1,3) a example_patch_loop by auto
qed

section \<open>When the patch step runs\<close>

text \<open>
  Claim C2, as amended. The \<^verbatim>\<open>exit\<close> listener does not look at the exit code: it runs
  \<^verbatim>\<open>mutateIdl\<close> whatever the code is, and when the schema file loads and the loop succeeds
  on it the file is rewritten with the patched schema. No other listener writes a file: a
  run of events without an \<^verbatim>\<open>exit\<close> event leaves the file system as it was. The \<^verbatim>\<open>error\<close>
  listener (the child could not be spawned) writes no file and ends the process with status
  1, so that no later event reaches a listener.
\<close>

theorem exit_listener_ignores_code:
  "on_event P S d (ExitEvent code) w = on_event P S d (ExitEvent (Some 0)) w \<and>
   (require P (files w) (generateIdl_generatedIdlPath d) = Inr idl \<and> patch_loop idl = Inr idl' \<longrightarrow>
      on_event P S d (ExitEvent code) w =
        (console_error ''Mutating IDL'' w
           \<lparr>files := (files w)(generateIdl_generatedIdlPath d \<mapsto> S idl')\<rparr>, Running)) \<and>
   (list_all (\<lambda>ev. \<not> is_exit ev) evs \<longrightarrow> files (fst (dispatch P S d evs (w, Running))) = files w) \<and>
   files (fst (on_event P S d (ErrorEvent err) w)) = files w \<and>
   snd (on_event P S d (ErrorEvent err) w) = Exited 1 \<and>
   dispatch P S d (ErrorEvent err # evs') (w, Running) = on_event P S d (ErrorEvent err) w"
proof (intro conjI impI)
  show "on_event P S d (ExitEvent code) w = on_event P S d (ExitEvent (Some 0)) w" by simp
  show "on_event P S d (ExitEvent code) w =
        (console_error ''Mutating IDL'' w
           \<lparr>files := (files w)(generateIdl_generatedIdlPath d \<mapsto> S idl')\<rparr>, Running)"
    if "require P (files w) (generateIdl_generatedIdlPath d) = Inr idl \<and> patch_loop idl = Inr idl'"
    using that by (simp add: mutateIdl_success)
  show "files (fst (dispatch P S d evs (w, Running))) = files w"
    if "list_all (\<lambda>ev. \<not> is_exit ev) evs" using that by (rule dispatch_no_exit_files)
  from on_event_error [of P S d err w] obtain w' where
    e: "on_event P S d (ErrorEvent err) w = (w', Exited 1)" "files w' = files w" by blast
  then show "files (fst (on_event P S d (ErrorEvent err) w)) = files w"
    and "snd (on_event P S d (ErrorEvent err) w) = Exited 1" by simp_all
  have "dispatch P S d (ErrorEvent err # evs') (w, Running) = dispatch P S d evs' (w', Exited 1)"
    using e(1) by simp
  also have "\<dots> = (w', Exited 1)" by (simp add: dispatch_stopped)
  finally show "dispatch P S d (ErrorEvent err # evs') (w, Running) = on_event P S d (ErrorEvent err) w"
    using e(1) by simp
qed

theorem exit_listener_ignores_code_witness:
  "on_event id Some ''/idl'' (ExitEvent None) example_world =
     on_event id Some ''/idl'' (ExitEvent (Some 0)) example_world \<and>
   require id (files example_world) (generateIdl_generatedIdlPath ''/idl'') = Inr example_idl \<and>
   patch_loop example_idl = Inr example_patched \<and>
   on_event id Some ''/idl'' (ExitEvent None) example_world =
     (\<lparr>files = [''/idl/phoenix.json'' \<mapsto> Some example_patched], console = [Err ''Mutating IDL'']\<rparr>, Running) \<and>
   list_all (\<lambda>ev. \<not> is_exit ev) [StdoutData ''shank'', ErrorEvent (SystemError ''ENOENT'')] \<and>
   files (fst (dispatch id Some ''/idl'' [StdoutData ''shank'', ErrorEvent (SystemError ''ENOENT'')]
                 (example_world, Running))) = files example_world \<and>
   dispatch id Some ''/idl'' [ErrorEvent (SystemError ''ENOENT''), ExitEvent (Some 0)] (example_world, Running) =
     (\<lparr>files = [''/idl/phoenix.json'' \<mapsto> Some example_idl],
       console = [ErrObj (SystemError ''ENOENT''), Err ENOENT_hint]\<rparr>, Exited 1)"
proof -
  note t = exit_listener_ignores_code [of id Some "''/idl''" None example_world example_idl example_patched
      "[StdoutData ''shank'', ErrorEvent (SystemError ''ENOENT'')]" "SystemError ''ENOENT''" "[ExitEvent (Some 0)]"]
  have r: "require id (files example_world) (generateIdl_generatedIdlPath ''/idl'') = Inr example_idl"
    by (simp add: path_idl example_require)
  have l: "list_all (\<lambda>ev. \<not> is_exit ev) [StdoutData ''shank'', ErrorEvent (SystemError ''ENOENT'')]"
    by simp
  have w: "console_error ''Mutating IDL'' example_world
           \<lparr>files := (files example_world)(generateIdl_generatedIdlPath ''/idl'' \<mapsto> Some example_patched)\<rparr> =
        \<lparr>files = [''/idl/phoenix.json'' \<mapsto> Some example_patched], console = [Err ''Mutating IDL'']\<rparr>"
    by (simp add: path_idl example_world_def console_error_def)
  have e: "on_event id Some ''/idl'' (ErrorEvent (SystemError ''ENOENT'')) example_world =
     (\<lparr>files = [''/idl/phoenix.json'' \<mapsto> Some example_idl],
       console = [ErrObj (SystemError ''ENOENT''), Err ENOENT_hint]\<rparr>, Exited 1)"
    by (simp add: example_world_def console_error_def console_error_obj_def)
  from t r example_patch_loop l w e show ?thesis by metis
qed

text \<open>
  Claim C2 as stated fails: when the child exits with code 1 and the schema file of an
  earlier extraction is there, the file is loaded, patched and rewritten.
\<close>

theorem exit_listener_counterexample:
  "on_event id Some ''/idl'' (ExitEvent (Some 1)) example_world =
     (\<lparr>files = [''/idl/phoenix.json'' \<mapsto> Some example_patched], console = [Err ''Mutating IDL'']\<rparr>, Running) \<and>
   files example_world ''/idl/phoenix.json'' = Some (Some example_idl) \<and>
   example_patched \<noteq> example_idl"
proof -
  have "mutateIdl id Some ''/idl'' example_world =
     (\<lparr>files = [''/idl/phoenix.json'' \<mapsto> Some example_patched], console = [Err ''Mutating IDL'']\<rparr>, None)"
    using mutateIdl_success [of id example_world "''/idl''" example_idl example_patched Some]
      example_require example_patch_loop
    by (simp add: path_idl) (simp add: example_world_def console_error_def)
  moreover have "example_patched \<noteq> example_idl" by (simp add: example_patched_def example_idl_def)
  ultimately show ?thesis by (simp add: example_world_def)
qed

section \<open>The file that the client generator loads\<close>

text \<open>
  Claim C3 says that \<^verbatim>\<open>generateClient.js\<close> loads the file that \<^verbatim>\<open>mutateIdl\<close> saved. The
  two scripts build the path from the same directory but from different program names,
  \<^verbatim>\<open>phoenix\<close> and \<^verbatim>\<open>phoenix_v1\<close>: for every directory the two paths differ, and
  \<^verbatim>\<open>mutateIdl\<close> never writes the file that the generator loads. On a file system where the
  extracted schema is at \<^verbatim>\<open>/idl/phoenix.json\<close>, \<^verbatim>\<open>generateIdl.js\<close> patches that file, and
  \<^verbatim>\<open>generateClient.js\<close> then fails to find \<^verbatim>\<open>/idl/phoenix_v1.json\<close>, whatever the generator
  library is.
\<close>

theorem client_requires_other_path:
  "generateClient_generatedIdlPath d \<noteq> generateIdl_generatedIdlPath d \<and>
   files (fst (mutateIdl P S d w)) (generateClient_generatedIdlPath d) =
     files w (generateClient_generatedIdlPath d) \<and>
   generateIdl_main id Some ''/idl'' (Inr ''shank'') [ExitEvent (Some 0)] example_world =
     (\<lparr>files = [''/idl/phoenix.json'' \<mapsto> Some example_patched], console = [Err ''Mutating IDL'']\<rparr>, Running) \<and>
   generateClient_main id solita ''/idl''
       \<lparr>files = [''/idl/phoenix.json'' \<mapsto> Some example_patched], console = [Err ''Mutating IDL'']\<rparr> =
     (\<lparr>files = [''/idl/phoenix.json'' \<mapsto> Some example_patched],
       console = [Err ''Mutating IDL'', Err ''Generating TypeScript SDK to /idl/src/generated'']\<rparr>,
      UnhandledRejection ModuleNotFound)"
proof (intro conjI)
  show "generateClient_generatedIdlPath d \<noteq> generateIdl_generatedIdlPath d" by (rule paths_differ)
  then show "files (fst (mutateIdl P S d w)) (generateClient_generatedIdlPath d) =
     files w (generateClient_generatedIdlPath d)" by (rule mutateIdl_other_files)
  show "generateIdl_main id Some ''/idl'' (Inr ''shank'') [ExitEvent (Some 0)] example_world =
     (\<lparr>files = [''/idl/phoenix.json'' \<mapsto> Some example_patched], console = [Err ''Mutating IDL'']\<rparr>, Running)"
    by (rule example_main)
  show "generateClient_main id solita ''/idl''
       \<lparr>files = [''/idl/phoenix.json'' \<mapsto> Some example_patched], console = [Err ''Mutating IDL'']\<rparr> =
     (\<lparr>files = [''/idl/phoenix.json'' \<mapsto> Some example_patched],
       console = [Err ''Mutating IDL'', Err ''Generating TypeScript SDK to /idl/src/generated'']\<rparr>,
      UnhandledRejection ModuleNotFound)"
    by (simp add: generateClient_main_def generateTypeScriptSDK_def path_client path_sdk
        console_error_def require_def load_json_def)
qed

section \<open>What loading checks\<close>




section \<open>The end of \<^verbatim>\<open>generateClient.js\<close>\<close>

text \<open>
  Claim C10. The promise of \<^verbatim>\<open>generateTypeScriptSDK\<close> is never fulfilled: the call ends in a
  rejection or in \<^verbatim>\<open>process.exit(0)\<close>. So the callback that \<^verbatim>\<open>main\<close> registers with
  \<^verbatim>\<open>then\<close> never runs (any other callback in its place gives the same outcome), and when the
  schema loads and the generator succeeds the process ends with exit status 0 after logging
  the success.
\<close>

theorem success_exits_before_callback:
  "snd (generateTypeScriptSDK P solita d w) \<noteq> Fulfilled u \<and>
   then_unhandled (generateTypeScriptSDK P solita d w) callback =
     then_unhandled (generateTypeScriptSDK P solita d w) callback' \<and>
   (require P (files w) (generateClient_generatedIdlPath d) = Inr idl \<and>
    solita idl (sdkDir d) (files w) = Inr fs \<longrightarrow>
      generateClient_main P solita d w =
        (console_error ''Success!''
           (console_error (''Generating TypeScript SDK to '' @ sdkDir d) w \<lparr>files := fs\<rparr>), Exited 0))"
proof (intro conjI impI)
  from generateTypeScriptSDK_cases [of P solita d w]
  show "snd (generateTypeScriptSDK P solita d w) \<noteq> Fulfilled u" by auto
  from generateTypeScriptSDK_cases [of P solita d w]
  show "then_unhandled (generateTypeScriptSDK P solita d w) callback =
     then_unhandled (generateTypeScriptSDK P solita d w) callback'" by auto
  assume "require P (files w) (generateClient_generatedIdlPath d) = Inr idl \<and>
    solita idl (sdkDir d) (files w) = Inr fs"
  then show "generateClient_main P solita d w =
        (console_error ''Success!''
           (console_error (''Generating TypeScript SDK to '' @ sdkDir d) w \<lparr>files := fs\<rparr>), Exited 0)"
    by (simp add: generateClient_main_def generateTypeScriptSDK_success)
qed

theorem success_exits_before_callback_witness:
  "require id (files client_world) (generateClient_generatedIdlPath ''/idl'') = Inr example_patched \<and>
   example_solita example_patched (sdkDir ''/idl'') (files client_world) =
     Inr [''/idl/phoenix_v1.json'' \<mapsto> Some example_patched, ''/idl/src/generated/index.ts'' \<mapsto> None] \<and>
   generateClient_main id example_solita ''/idl'' client_world =
     (\<lparr>files = [''/idl/phoenix_v1.json'' \<mapsto> Some example_patched, ''/idl/src/generated/index.ts'' \<mapsto> None],
       console = [Err ''Generating TypeScript SDK to /idl/src/generated'', Err ''Success!'']\<rparr>, Exited 0)"
proof -
  have r: "require id (files client_world) (generateClient_generatedIdlPath ''/idl'') = Inr example_patched"
    by (simp add: client_world_def require_def load_json_def path_client)
  have s: "example_solita example_patched (sdkDir ''/idl'') (files client_world) =
     Inr [''/idl/phoenix_v1.json'' \<mapsto> Some example_patched, ''/idl/src/generated/index.ts'' \<mapsto> None]"
    by (simp add: example_solita_def client_world_def path_sdk path_join_def)
  have c: "console_error ''Success!''
           (console_error (''Generating TypeScript SDK to '' @ sdkDir ''/idl'') client_world
              \<lparr>files := [''/idl/phoenix_v1.json'' \<mapsto> Some example_patched, ''/idl/src/generated/index.ts'' \<mapsto> None]\<rparr>) =
     \<lparr>files = [''/idl/phoenix_v1.json'' \<mapsto> Some example_patched, ''/idl/src/generated/index.ts'' \<mapsto> None],
       console = [Err ''Generating TypeScript SDK to /idl/src/generated'', Err ''Success!'']\<rparr>"
    by (simp add: console_error_def client_world_def path_sdk)
  from success_exits_before_callback [of id example_solita "''/idl''" client_world "()" done_callback done_callback
      example_patched "[''/idl/phoenix_v1.json'' \<mapsto> Some example_patched, ''/idl/src/generated/index.ts'' \<mapsto> None]"]
    r s c
  show ?thesis by simp
qed

end
